theory Spec2Isabelle
  imports Complex_Main
begin

section \<open>Identifier tiers\<close>

text \<open>
  Transaction ids are strings. Draft and preview rows are recognised by a reserved
  substring of the id: \<^verbatim>\<open>id.indexOf('temp') !== -1\<close> and
  \<^verbatim>\<open>id.indexOf('preview/') !== -1\<close>.
\<close>

fun indexOf :: "string \<Rightarrow> string \<Rightarrow> int" where
  "indexOf [] pat = (if pat = [] then 0 else - 1)"
| "indexOf (c # cs) pat =
     (if take (length pat) (c # cs) = pat then 0
      else (let r = indexOf cs pat in if r < 0 then - 1 else r + 1))"

definition isTemporaryId :: "string \<Rightarrow> bool" where
  "isTemporaryId i = (indexOf i ''temp'' \<noteq> - 1)"

definition isPreviewId :: "string \<Rightarrow> bool" where
  "isPreviewId i = (indexOf i ''preview/'' \<noteq> - 1)"

section \<open>Transactions and their display form\<close>

text \<open>
  The fields of a transaction object that the modelled functions read or copy. A nullable
  field is an \<open>option\<close>; \<open>inverse\<close> is the truthiness of \<^verbatim>\<open>_inverse\<close>.
  The display form adds the two text fields \<open>debit\<close> and \<open>credit\<close>.
\<close>

record transaction =
  txid :: string
  date :: "string option"
  amount :: "int option"
  account :: "string option"
  payee :: "string option"
  tx_notes :: "string option"
  category :: "string option"
  cleared :: bool
  parent_id :: "string option"
  is_child :: bool
  is_parent :: bool
  inverse :: bool

record display_transaction = transaction +
  debit :: string
  credit :: string

text \<open>
  The functions imported from \<^verbatim>\<open>loot-core\<close> and \<^verbatim>\<open>date-fns\<close> are
  parameters of the model: \<open>isDateValid\<close> stands for
  \<^verbatim>\<open>isDateValid(parseISO(date))\<close>, \<open>evalArithmetic\<close> for
  \<^verbatim>\<open>evalArithmetic(text, null)\<close> (\<open>None\<close> is \<^verbatim>\<open>null\<close>).
\<close>

record loot_core =
  getScheduledAmount :: "int option \<Rightarrow> int option"
  integerToCurrency :: "int \<Rightarrow> string"
  evalArithmetic :: "string \<Rightarrow> rat option"
  amountToInteger :: "rat \<Rightarrow> int"
  isDateValid :: "string option \<Rightarrow> bool"
  currentDay :: string

section \<open>Amount codec\<close>

definition serializeTransaction ::
  "loot_core \<Rightarrow> transaction \<Rightarrow> bool \<Rightarrow> display_transaction" where
  "serializeTransaction lc transaction showZeroInDeposit =
     (let amount0 =
            (if isPreviewId (txid transaction)
             then Some ((if inverse transaction then - 1 else 1) *
                        (case getScheduledAmount lc (amount transaction) of
                           None \<Rightarrow> 0 | Some v \<Rightarrow> v))
             else amount transaction);
          debit0 = (case amount0 of
                      Some a \<Rightarrow> if a < 0 then Some (- a) else None
                    | None \<Rightarrow> None);
          credit0 = (case amount0 of
                       Some a \<Rightarrow> if a > 0 then Some a else None
                     | None \<Rightarrow> None);
          credit1 = (if amount0 = Some 0 \<and> showZeroInDeposit then Some 0 else credit0);
          debit1 = (if amount0 = Some 0 \<and> \<not> showZeroInDeposit then Some 0 else debit0);
          date1 = (if isDateValid lc (date transaction) then date transaction else None)
      in transaction.extend (transaction\<lparr>date := date1\<rparr>)
           \<lparr>debit = (case debit1 of Some d \<Rightarrow> integerToCurrency lc d | None \<Rightarrow> ''''),
            credit = (case credit1 of Some c \<Rightarrow> integerToCurrency lc c | None \<Rightarrow> '''')\<rparr>)"

definition deserializeTransaction ::
  "loot_core \<Rightarrow> display_transaction \<Rightarrow> transaction \<Rightarrow> transaction" where
  "deserializeTransaction lc transaction originalTransaction =
     (let amount0 =
            (if debit transaction \<noteq> ''''
             then (case evalArithmetic lc (debit transaction) of
                     Some parsed \<Rightarrow> Some (- parsed) | None \<Rightarrow> None)
             else evalArithmetic lc (credit transaction));
          amount1 = (case amount0 of
                       Some a \<Rightarrow> Some (amountToInteger lc a)
                     | None \<Rightarrow> amount originalTransaction);
          date1 = (case date transaction of
                     Some d \<Rightarrow> Some d
                   | None \<Rightarrow>
                       (case date originalTransaction of
                          Some od \<Rightarrow> if od \<noteq> '''' then Some od else Some (currentDay lc)
                        | None \<Rightarrow> Some (currentDay lc)))
      in (transaction.truncate transaction)\<lparr>date := date1, amount := amount1\<rparr>)"


text \<open>
  The hypothesis ``the currency text is re-parsed without modification'', for one
  non-negative display value \<open>n\<close>: formatting \<open>n\<close> gives non-empty text, the
  evaluator reads it back as some number \<open>x\<close>, and \<open>amountToInteger\<close> maps
  \<open>x\<close> to \<open>n\<close> and \<open>- x\<close> to \<open>- n\<close>.
\<close>

definition reparses :: "loot_core \<Rightarrow> int \<Rightarrow> bool" where
  "reparses lc n =
     (integerToCurrency lc n \<noteq> '''' \<and>
      (case evalArithmetic lc (integerToCurrency lc n) of
         None \<Rightarrow> False
       | Some x \<Rightarrow> amountToInteger lc x = n \<and> amountToInteger lc (- x) = - n))"

text \<open>
  The value of the local \<^verbatim>\<open>amount\<close> of \<^verbatim>\<open>serializeTransaction\<close> after its
  preview adjustment: the amount the two text fields show.
\<close>

definition displayed_amount :: "loot_core \<Rightarrow> transaction \<Rightarrow> int option" where
  "displayed_amount lc transaction =
     (if isPreviewId (txid transaction)
      then Some ((if inverse transaction then - 1 else 1) *
                 (case getScheduledAmount lc (amount transaction) of
                    None \<Rightarrow> 0 | Some v \<Rightarrow> v))
      else amount transaction)"

section \<open>Split-expansion state machine\<close>

record splits_state =
  mode :: string
  ids :: "string set"
  transitionId :: "string option"

datatype action =
    Toggle_split string
  | Open_split string
  | Set_mode string
  | Switch_mode "string option"
  | Finish_switch_mode
  | Other_action string

text \<open>The \<^verbatim>\<open>expanded\<close> closure of \<^verbatim>\<open>useSplitsExpanded\<close>.\<close>

definition expanded :: "splits_state \<Rightarrow> string \<Rightarrow> bool" where
  "expanded state i = (if mode state = ''collapse'' then i \<notin> ids state else i \<in> ids state)"

text \<open>
  The reducer of \<^verbatim>\<open>SplitsExpandedProvider\<close>. The \<^verbatim>\<open>default\<close> branch throws;
  the thrown message is the \<open>Inl\<close> value.
\<close>

fun reducer :: "splits_state \<Rightarrow> action \<Rightarrow> string + splits_state" where
  "reducer state (Toggle_split i) =
     Inr (state\<lparr>ids := (if i \<in> ids state then ids state - {i} else insert i (ids state))\<rparr>)"
| "reducer state (Open_split i) =
     Inr (state\<lparr>ids := (if mode state = ''collapse'' then ids state - {i}
                         else insert i (ids state))\<rparr>)"
| "reducer state (Set_mode m) =
     Inr (state\<lparr>mode := m, ids := {}, transitionId := None\<rparr>)"
| "reducer state (Switch_mode i) =
     (if transitionId state \<noteq> None then Inr state
      else Inr (state\<lparr>mode := (if mode state = ''expand'' then ''collapse'' else ''expand''),
                      transitionId := i,
                      ids := {}\<rparr>))"
| "reducer state Finish_switch_mode = Inr (state\<lparr>transitionId := None\<rparr>)"
| "reducer state (Other_action ty) = Inl (''Unknown action type: '' @ ty)"

text \<open>Dispatching a further action; a throw of an earlier dispatch is kept.\<close>

definition dispatch :: "string + splits_state \<Rightarrow> action \<Rightarrow> string + splits_state" where
  "dispatch r a = (case r of Inl e \<Rightarrow> Inl e | Inr state \<Rightarrow> reducer state a)"

section \<open>Visible rows\<close>

text \<open>\<^verbatim>\<open>if (t.parent_id)\<close>: a parent id that is neither null nor the empty string.\<close>

definition truthy :: "string option \<Rightarrow> bool" where
  "truthy v = (case v of None \<Rightarrow> False | Some s \<Rightarrow> s \<noteq> '''')"

text \<open>\<^verbatim>\<open>Array.prototype.findIndex\<close>: the first matching index, or -1.\<close>

fun findIndex :: "('a \<Rightarrow> bool) \<Rightarrow> 'a list \<Rightarrow> int" where
  "findIndex P [] = - 1"
| "findIndex P (x # xs) =
     (if P x then 0 else (let r = findIndex P xs in if r < 0 then - 1 else r + 1))"

text \<open>\<^verbatim>\<open>Array.prototype.filter\<close> with the two-argument callback \<^verbatim>\<open>(t, idx)\<close>.\<close>

definition filter_idx :: "('a \<Rightarrow> nat \<Rightarrow> bool) \<Rightarrow> 'a list \<Rightarrow> 'a list" where
  "filter_idx P xs = map snd (filter (\<lambda>(idx, t). P t idx) (enumerate 0 xs))"

text \<open>
  The \<^verbatim>\<open>transactions\<close> memo of \<^verbatim>\<open>TransactionTable\<close>: from the rows, the current
  expansion state and the contents of the \<^verbatim>\<open>prevSplitsExpanded\<close> ref, the visible rows
  and the new contents of the ref.
\<close>

definition transactions_memo ::
  "transaction list \<Rightarrow> splits_state \<Rightarrow> splits_state option
     \<Rightarrow> transaction list \<times> splits_state option" where
  "transactions_memo transactions splitsExpanded prevSplitsExpanded =
     (case transitionId splitsExpanded of
        Some tr \<Rightarrow>
          (let index = findIndex (\<lambda>t. txid t = tr) transactions
           in (filter_idx
                 (\<lambda>t idx.
                    if truthy (parent_id t) then
                      (if int idx \<ge> index then expanded splitsExpanded (the (parent_id t))
                       else (case prevSplitsExpanded of
                               Some prev \<Rightarrow> expanded prev (the (parent_id t))
                             | None \<Rightarrow> True))
                    else True)
                 transactions,
               Some splitsExpanded))
      | None \<Rightarrow>
          (filter
             (\<lambda>t. if truthy (parent_id t) then expanded splitsExpanded (the (parent_id t))
                  else True)
             transactions,
           Some splitsExpanded))"

text \<open>
  The claim's reading of the filter. The parent's index is where the row carrying the parent
  id stands in display order; the transitioning parent's index is where the row carrying
  \<open>transitionId\<close> stands.
\<close>

definition parent_index :: "transaction list \<Rightarrow> transaction \<Rightarrow> int" where
  "parent_index transactions t = findIndex (\<lambda>u. Some (txid u) = parent_id t) transactions"

definition visible_by_parent ::
  "transaction list \<Rightarrow> splits_state \<Rightarrow> splits_state \<Rightarrow> transaction \<Rightarrow> bool" where
  "visible_by_parent transactions new_state prev_state t =
     (if truthy (parent_id t) then
        (case transitionId new_state of
           Some tr \<Rightarrow>
             (if parent_index transactions t \<ge> findIndex (\<lambda>u. txid u = tr) transactions
              then expanded new_state (the (parent_id t))
              else expanded prev_state (the (parent_id t)))
         | None \<Rightarrow> expanded new_state (the (parent_id t)))
      else True)"


text \<open>
  Display order of a split family: the parent row stands before its child, and every row
  after the parent up to the child is a child row.
\<close>

definition follows_parent :: "transaction list \<Rightarrow> nat \<Rightarrow> bool" where
  "follows_parent transactions i =
     (let p = parent_index transactions (transactions ! i)
      in 0 \<le> p \<and> p < int i \<and>
         list_all (\<lambda>u. truthy (parent_id u)) (take (i - nat p) (drop (nat p + 1) transactions)))"

definition family_order :: "transaction list \<Rightarrow> bool" where
  "family_order transactions =
     list_all (\<lambda>(i, t). truthy (parent_id t) \<longrightarrow> follows_parent transactions i)
       (enumerate 0 transactions)"

definition anchor_is_parent :: "transaction list \<Rightarrow> string \<Rightarrow> bool" where
  "anchor_is_parent transactions tr =
     list_all (\<lambda>t. txid t = tr \<longrightarrow> \<not> truthy (parent_id t)) transactions"

section \<open>Draft buffer: deleting a row\<close>

datatype js_error = TypeError

text \<open>
  \<^verbatim>\<open>onDelete\<close> of \<^verbatim>\<open>TransactionTable\<close> as a function of the
  \<^verbatim>\<open>newTransactions\<close> state (\<open>None\<close> is its initial \<^verbatim>\<open>null\<close>). The imported
  \<^verbatim>\<open>deleteTransaction(newTrans, id).data\<close> is a parameter. Reading element 0 of
  \<^verbatim>\<open>null\<close>, or the id of a missing element 0, throws.
\<close>

definition onDelete ::
  "(transaction list \<Rightarrow> string \<Rightarrow> transaction list) \<Rightarrow> transaction list option \<Rightarrow> string
     \<Rightarrow> js_error + transaction list option" where
  "onDelete deleteTransaction newTransactions i =
     (if isTemporaryId i then
        (case newTransactions of
           None \<Rightarrow> Inl TypeError
         | Some [] \<Rightarrow> Inl TypeError
         | Some (t0 # ts) \<Rightarrow>
             if i = txid t0 then Inr newTransactions
             else Inr (Some (deleteTransaction (t0 # ts) i)))
      else Inr newTransactions)"

section \<open>Editable fields of a row\<close>

definition getFields :: "bool \<Rightarrow> bool \<Rightarrow> transaction \<Rightarrow> string list" where
  "getFields showAccount showCategory item =
     (let fields0 = [''select'', ''date'', ''account'', ''payee'', ''notes'', ''category'',
                     ''debit'', ''credit'', ''cleared''];
          fields1 = (if is_child item
                     then [''select'', ''payee'', ''notes'', ''category'', ''debit'', ''credit'']
                     else filter (\<lambda>f. (showAccount \<or> f \<noteq> ''account'') \<and>
                                       (showCategory \<or> f \<noteq> ''category'')) fields0);
          fields2 = (if isPreviewId (txid item) then [''select'', ''cleared''] else fields1);
          fields3 = (if isTemporaryId (txid item) then drop 1 fields2 else fields2)
      in fields3)"

text \<open>The field sets by row kind as the specification lists them.\<close>

definition kind_fields :: "bool \<Rightarrow> bool \<Rightarrow> transaction \<Rightarrow> string list" where
  "kind_fields showAccount showCategory item =
     (if isPreviewId (txid item) then [''select'', ''cleared'']
      else if is_child item
      then [''select'', ''payee'', ''notes'', ''category'', ''debit'', ''credit'']
      else [''select'', ''date''] @ (if showAccount then [''account''] else []) @
           [''payee'', ''notes''] @ (if showCategory then [''category''] else []) @
           [''debit'', ''credit'', ''cleared''])"

section \<open>A concrete instance of the imported functions\<close>

text \<open>
  One concrete choice of the imported functions, on exact rationals: amounts are printed
  with two decimals (500 is \<open>5.00\<close>), the evaluator reads an unsigned decimal literal
  and gives \<open>None\<close> on any other text, \<open>amountToInteger\<close> is
  \<^verbatim>\<open>Math.round(n * 100)\<close>, and the scheduled amount of a number is that number.
\<close>

definition digit_char :: "nat \<Rightarrow> char" where
  "digit_char d = ''0123456789'' ! d"

fun digits :: "nat \<Rightarrow> string" where
  "digits n = (if n < 10 then [digit_char n] else digits (n div 10) @ [digit_char (n mod 10)])"

declare digits.simps [simp del]

definition currency_text :: "int \<Rightarrow> string" where
  "currency_text n =
     (if n < 0 then ''-'' else '''') @ digits (nat \<bar>n\<bar> div 100) @ ''.'' @
     [digit_char (nat \<bar>n\<bar> mod 100 div 10), digit_char (nat \<bar>n\<bar> mod 10)]"

definition digit_value :: "char \<Rightarrow> nat option" where
  "digit_value c =
     (let k = findIndex (\<lambda>d. d = c) ''0123456789'' in if k < 0 then None else Some (nat k))"

fun number_of_digits :: "nat \<Rightarrow> string \<Rightarrow> nat option" where
  "number_of_digits acc [] = Some acc"
| "number_of_digits acc (c # cs) =
     (case digit_value c of
        None \<Rightarrow> None
      | Some d \<Rightarrow> number_of_digits (10 * acc + d) cs)"

definition decimal_literal :: "string \<Rightarrow> rat option" where
  "decimal_literal s =
     (let whole = takeWhile (\<lambda>c. c \<noteq> CHR ''.'') s;
          rest = dropWhile (\<lambda>c. c \<noteq> CHR ''.'') s
      in if whole = [] then None
         else (case number_of_digits 0 whole of
                 None \<Rightarrow> None
               | Some w \<Rightarrow>
                   if rest = [] then Some (of_nat w)
                   else if tl rest = [] then None
                   else (case number_of_digits 0 (tl rest) of
                           None \<Rightarrow> None
                         | Some f \<Rightarrow> Some (of_nat w + of_nat f / 10 ^ length (tl rest)))))"

definition sample_core :: loot_core where
  "sample_core =
     \<lparr>getScheduledAmount = (\<lambda>a. a),
      integerToCurrency = currency_text,
      evalArithmetic = decimal_literal,
      amountToInteger = (\<lambda>x. \<lfloor>x * 100 + 1 / 2\<rfloor>),
      isDateValid = (\<lambda>d. truthy d),
      currentDay = ''2023-04-01''\<rparr>"

definition sample_transaction :: transaction where
  "sample_transaction =
     \<lparr>txid = ''a1'', date = Some ''2023-03-05'', amount = Some (- 500), account = Some ''acct'',
      payee = None, tx_notes = None, category = None, cleared = False, parent_id = None,
      is_child = False, is_parent = False, inverse = False\<rparr>"

definition sample_preview :: transaction where
  "sample_preview =
     \<lparr>txid = ''preview/s1'', date = Some ''2023-03-05'', amount = Some 500,
      account = Some ''acct'', payee = None, tx_notes = None, category = None, cleared = False,
      parent_id = None, is_child = False, is_parent = False, inverse = True\<rparr>"

text \<open>
  Five rows in display order: a split parent \<open>p1\<close> with child \<open>c1\<close>, a split parent
  \<open>p2\<close> with child \<open>c2\<close>, and a plain row \<open>n3\<close>.
\<close>

definition sample_row :: "string \<Rightarrow> string option \<Rightarrow> transaction" where
  "sample_row i p =
     \<lparr>txid = i, date = Some ''2023-03-05'', amount = Some (- 500), account = Some ''acct'',
      payee = None, tx_notes = None, category = None, cleared = False, parent_id = p,
      is_child = (p \<noteq> None), is_parent = False, inverse = False\<rparr>"



section \<open>Amount codec: properties\<close>

subsection \<open>The concrete instance re-parses its own text\<close>

text \<open>
  The concrete instance satisfies \<open>reparses\<close> at every non-negative value: the printed
  text of \<open>n\<close> is read back as \<open>n / 100\<close>, which rounds to \<open>n\<close>.
\<close>

lemma digit_value_digit_char: "d < 10 \<Longrightarrow> digit_value (digit_char d) = Some d"
proof -
  assume "d < 10"
  then have "d \<in> {0, 1, 2, 3, 4, 5, 6, 7, 8, 9}" by auto
  then show ?thesis
    by (auto simp: digit_value_def digit_char_def)
qed

lemma digit_char_not_point: "d < 10 \<Longrightarrow> digit_char d \<noteq> CHR ''.''"
proof -
  assume "d < 10"
  then have "d \<in> {0, 1, 2, 3, 4, 5, 6, 7, 8, 9}" by auto
  then show ?thesis
    by (auto simp: digit_char_def)
qed

lemma number_of_digits_snoc:
  "number_of_digits acc (cs @ [c]) =
     (case number_of_digits acc cs of
        None \<Rightarrow> None
      | Some a \<Rightarrow> (case digit_value c of None \<Rightarrow> None | Some d \<Rightarrow> Some (10 * a + d)))"
  by (induction cs arbitrary: acc) (auto split: option.splits)

lemma number_of_digits_digits: "number_of_digits 0 (digits n) = Some n"
proof (induction n rule: digits.induct)
  case (1 n)
  show ?case
  proof (cases "n < 10")
    case True
    then show ?thesis
      by (simp add: digits.simps [of n] digit_value_digit_char)
  next
    case False
    with 1 have "number_of_digits 0 (digits (n div 10)) = Some (n div 10)" by simp
    with False show ?thesis
      by (simp add: digits.simps [of n] number_of_digits_snoc digit_value_digit_char)
  qed
qed

lemma digits_no_point: "CHR ''.'' \<notin> set (digits n)"
proof (induction n rule: digits.induct)
  case (1 n)
  show ?case
  proof (cases "n < 10")
    case True
    with digit_char_not_point [of n] show ?thesis
      by (simp add: digits.simps [of n])
  next
    case False
    with 1 have "CHR ''.'' \<notin> set (digits (n div 10))" by simp
    with False digit_char_not_point [of "n mod 10"] show ?thesis
      by (simp add: digits.simps [of n])
  qed
qed

lemma digits_not_empty: "digits n \<noteq> []"
  by (simp add: digits.simps [of n])

lemma decimal_literal_two_places:
  assumes "a < 10" "b < 10"
  shows "decimal_literal (digits w @ ''.'' @ [digit_char a, digit_char b]) =
         Some (of_nat w + of_nat (10 * a + b) / 100)"
proof -
  let ?s = "digits w @ ''.'' @ [digit_char a, digit_char b]"
  have tw: "takeWhile (\<lambda>c. c \<noteq> CHR ''.'') ?s = digits w"
    using digits_no_point [of w] by (auto simp: takeWhile_tail)
  have dw: "dropWhile (\<lambda>c. c \<noteq> CHR ''.'') ?s = ''.'' @ [digit_char a, digit_char b]"
    using digits_no_point [of w] by (auto simp: dropWhile_append)
  have fr: "number_of_digits 0 [digit_char a, digit_char b] = Some (10 * a + b)"
    using assms by (simp add: digit_value_digit_char)
  show ?thesis
    unfolding decimal_literal_def Let_def tw dw
    by (simp add: digits_not_empty number_of_digits_digits fr del: number_of_digits.simps)
qed

lemma sample_core_reparses: "0 \<le> n \<Longrightarrow> reparses sample_core n"
proof -
  assume n: "0 \<le> n"
  define m where "m = nat n"
  have shape: "currency_text n = digits (m div 100) @ ''.'' @ [digit_char (m mod 100 div 10), digit_char (m mod 10)]"
    using n by (simp add: currency_text_def m_def)
  have "m mod 100 div 10 < 10" "m mod 10 < 10" by simp_all
  from decimal_literal_two_places [OF this, of "m div 100"]
  have ev: "decimal_literal (currency_text n) =
            Some (of_nat (m div 100) + of_nat (10 * (m mod 100 div 10) + m mod 10) / 100)"
    by (simp add: shape)
  have "m mod 10 = m mod 100 mod 10"
    by (simp add: mod_mod_cancel)
  then have "10 * (m mod 100 div 10) + m mod 10 = m mod 100"
    by (simp only: mult_div_mod_eq)
  then have "100 * (m div 100) + (10 * (m mod 100 div 10) + m mod 10) = m"
    by simp
  then have "(of_nat (100 * (m div 100) + (10 * (m mod 100 div 10) + m mod 10)) :: rat) = of_nat m"
    by simp
  then have sum: "100 * (of_nat (m div 100) :: rat) + of_nat (10 * (m mod 100 div 10) + m mod 10) = of_int n"
    using n by (simp add: m_def)
  have alg: "(A + B / 100) * 100 = 100 * A + B" for A B :: rat
    by (simp add: field_simps)
  have val: "(of_nat (m div 100) + of_nat (10 * (m mod 100 div 10) + m mod 10) / 100 :: rat) * 100 = of_int n"
    by (simp only: alg sum)
  define x :: rat where "x = of_nat (m div 100) + of_nat (10 * (m mod 100 div 10) + m mod 10) / 100"
  from val have x100: "x * 100 = of_int n" by (simp add: x_def)
  have r1: "\<lfloor>x * 100 + 1 / 2\<rfloor> = n"
    unfolding x100 by linarith
  have r2: "\<lfloor>- x * 100 + 1 / 2\<rfloor> = - n"
  proof -
    have "- x * 100 = of_int (- n)" using x100 by simp
    then show ?thesis by (simp only:) linarith
  qed
  have ne: "currency_text n \<noteq> ''''"
    by (simp add: shape digits_not_empty)
  from ev ne r1 r2 show ?thesis
    by (simp add: reparses_def sample_core_def x_def)
qed

subsection \<open>Round trip\<close>

text \<open>
  Whatever the row, the amount that comes back from the two text fields is the amount they
  show, provided its text re-parses.
\<close>

lemma roundtrip_displayed:
  assumes d: "displayed_amount lc t = Some v"
    and r: "reparses lc \<bar>v\<bar>"
  shows "amount (deserializeTransaction lc (serializeTransaction lc t f) orig) = Some v"
proof -
  from r obtain x where ne: "integerToCurrency lc \<bar>v\<bar> \<noteq> ''''"
    and ev: "evalArithmetic lc (integerToCurrency lc \<bar>v\<bar>) = Some x"
    and pos: "amountToInteger lc x = \<bar>v\<bar>"
    and neg: "amountToInteger lc (- x) = - \<bar>v\<bar>"
    by (auto simp: reparses_def split: option.splits)
  consider "v < 0" | "v = 0" | "0 < v" by linarith
  then show ?thesis
  proof cases
    case 1
    with d ne ev neg show ?thesis
      by (simp add: serializeTransaction_def deserializeTransaction_def displayed_amount_def
          transaction.extend_def transaction.truncate_def)
  next
    case 2
    with d ne ev neg pos show ?thesis
      by (cases f)
         (simp_all add: serializeTransaction_def deserializeTransaction_def displayed_amount_def
          transaction.extend_def transaction.truncate_def)
  next
    case 3
    with d ne ev pos show ?thesis
      by (simp add: serializeTransaction_def deserializeTransaction_def displayed_amount_def
          transaction.extend_def transaction.truncate_def)
  qed
qed

text \<open>
  A preview row shows the scheduled amount, negated when the row is marked inverse, so that
  is what comes back for it, whatever the stored amount.
\<close>

lemma preview_roundtrip_displayed:
  assumes "isPreviewId (txid t)"
    and "v = (if inverse t then - 1 else 1) *
             (case getScheduledAmount lc (amount t) of None \<Rightarrow> 0 | Some u \<Rightarrow> u)"
    and "reparses lc \<bar>v\<bar>"
  shows "amount (deserializeTransaction lc (serializeTransaction lc t f) orig) = Some v"
proof -
  from assms(1,2) have "displayed_amount lc t = Some v"
    by (simp add: displayed_amount_def)
  from roundtrip_displayed [OF this assms(3)] show ?thesis .
qed

text \<open>In the concrete instance every amount of a row that is not a preview row comes back.\<close>

lemma sample_core_roundtrip:
  assumes "\<not> isPreviewId (txid t)" and "amount t = Some a"
  shows "amount (deserializeTransaction sample_core (serializeTransaction sample_core t f) orig)
         = Some a"
proof -
  from assms have "displayed_amount sample_core t = Some a"
    by (simp add: displayed_amount_def)
  moreover have "reparses sample_core \<bar>a\<bar>"
    by (rule sample_core_reparses) simp
  ultimately show ?thesis by (rule roundtrip_displayed)
qed

text \<open>
  Claim C1, as stated: for every integer amount \<open>a\<close> and every flag, deserializing the
  serialized transaction gives amount \<open>a\<close>. It fails on a preview row marked inverse:
  the stored amount 500 is shown as the debit \<open>5.00\<close> and comes back as \<open>-500\<close>,
  although the text of 500 re-parses.
\<close>

theorem amount_roundtrip_counterexample:
  "amount sample_preview = Some 500 \<and>
   reparses sample_core 500 \<and>
   amount (deserializeTransaction sample_core
             (serializeTransaction sample_core sample_preview True) sample_preview)
     = Some (- 500)"
  by code_simp

text \<open>
  Claim C1, amended: for every transaction that is not a preview row, every integer amount
  \<open>a\<close> and every flag \<open>f\<close>, deserializing the result of serializing the transaction
  under \<open>f\<close>, with the debit and credit text unmodified, yields amount \<open>a\<close>, provided
  the currency text of \<open>\<bar>a\<bar>\<close> re-parses.
\<close>

theorem amount_roundtrip:
  assumes "\<not> isPreviewId (txid t)"
    and "amount t = Some a"
    and "reparses lc \<bar>a\<bar>"
  shows "amount (deserializeTransaction lc (serializeTransaction lc t f) orig) = Some a"
proof -
  from assms(1,2) have "displayed_amount lc t = Some a"
    by (simp add: displayed_amount_def)
  from roundtrip_displayed [OF this assms(3)] show ?thesis .
qed

text \<open>The amended claim C1 at the amount \<open>-500\<close> in the concrete instance.\<close>

theorem amount_roundtrip_witness:
  "\<not> isPreviewId (txid sample_transaction) \<and>
   amount sample_transaction = Some (- 500) \<and>
   reparses sample_core \<bar>- 500\<bar> \<and>
   amount (deserializeTransaction sample_core
             (serializeTransaction sample_core sample_transaction True) sample_transaction)
     = Some (- 500)"
proof -
  have a: "\<not> isPreviewId (txid sample_transaction)" by code_simp
  have b: "amount sample_transaction = Some (- 500)" by (simp add: sample_transaction_def)
  have c: "reparses sample_core \<bar>- 500\<bar>" by code_simp
  from amount_roundtrip [OF a b c] a b c show ?thesis by simp
qed

subsection \<open>Zero amounts\<close>

text \<open>
  Claim C2: for a transaction whose amount is exactly 0, serializing with
  \<open>showZeroInDeposit\<close> true gives credit \<open>0.00\<close> and an empty debit, and with the flag
  false gives debit \<open>0.00\<close> and an empty credit; the zero appears in exactly one field.
  The text of zero is what \<open>integerToCurrency\<close> returns for 0, and for a preview row the
  scheduled amount of 0 is taken to be 0.
\<close>

theorem zero_amount_display:
  assumes "amount t = Some 0"
    and "isPreviewId (txid t) \<longrightarrow> getScheduledAmount lc (Some 0) = Some 0"
    and "integerToCurrency lc 0 = ''0.00''"
  shows "credit (serializeTransaction lc t True) = ''0.00'' \<and>
         debit (serializeTransaction lc t True) = '''' \<and>
         debit (serializeTransaction lc t False) = ''0.00'' \<and>
         credit (serializeTransaction lc t False) = ''''"
  using assms by (simp add: serializeTransaction_def transaction.extend_def)

text \<open>Claim C2 on a plain row and on a preview row of the concrete instance.\<close>

theorem zero_amount_display_witness:
  "credit (serializeTransaction sample_core (sample_transaction\<lparr>amount := Some 0\<rparr>) True) = ''0.00'' \<and>
   debit (serializeTransaction sample_core (sample_transaction\<lparr>amount := Some 0\<rparr>) True) = '''' \<and>
   debit (serializeTransaction sample_core (sample_transaction\<lparr>amount := Some 0\<rparr>) False) = ''0.00'' \<and>
   credit (serializeTransaction sample_core (sample_transaction\<lparr>amount := Some 0\<rparr>) False) = '''' \<and>
   credit (serializeTransaction sample_core (sample_preview\<lparr>amount := Some 0\<rparr>) True) = ''0.00'' \<and>
   debit (serializeTransaction sample_core (sample_preview\<lparr>amount := Some 0\<rparr>) True) = ''''"
proof -
  have a: "amount (sample_transaction\<lparr>amount := Some 0\<rparr>) = Some 0" by simp
  have b: "isPreviewId (txid (sample_transaction\<lparr>amount := Some 0\<rparr>)) \<longrightarrow>
           getScheduledAmount sample_core (Some 0) = Some 0"
    by (simp add: sample_core_def)
  have c: "integerToCurrency sample_core 0 = ''0.00''" by code_simp
  have a': "amount (sample_preview\<lparr>amount := Some 0\<rparr>) = Some 0" by simp
  have b': "isPreviewId (txid (sample_preview\<lparr>amount := Some 0\<rparr>)) \<longrightarrow>
           getScheduledAmount sample_core (Some 0) = Some 0"
    by (simp add: sample_core_def)
  from zero_amount_display [OF a b c] zero_amount_display [OF a' b' c] show ?thesis by simp
qed

subsection \<open>Degradation of deserialize\<close>

text \<open>
  Claim C8: if both text fields are empty, or the field that is read holds text that the
  evaluator rejects, deserialize returns the original transaction's amount. The model of
  deserialize has no failing branch. The evaluator returns null on the empty text.
\<close>

theorem deserialize_degrades:
  assumes "evalArithmetic lc '''' = None"
    and "(debit d = '''' \<and> credit d = '''') \<or>
         (debit d \<noteq> '''' \<and> evalArithmetic lc (debit d) = None) \<or>
         (debit d = '''' \<and> credit d \<noteq> '''' \<and> evalArithmetic lc (credit d) = None)"
  shows "amount (deserializeTransaction lc d orig) = amount orig"
  using assms by (auto simp: deserializeTransaction_def)

text \<open>Claim C8 on empty fields and on the malformed text \<open>1x\<close> in either field.\<close>

theorem deserialize_degrades_witness:
  "evalArithmetic sample_core '''' = None \<and>
   evalArithmetic sample_core ''1x'' = None \<and>
   amount (deserializeTransaction sample_core
      ((serializeTransaction sample_core sample_transaction True)\<lparr>debit := '''', credit := ''''\<rparr>)
      sample_transaction) = amount sample_transaction \<and>
   amount (deserializeTransaction sample_core
      ((serializeTransaction sample_core sample_transaction True)\<lparr>debit := ''1x'', credit := ''''\<rparr>)
      sample_transaction) = amount sample_transaction \<and>
   amount (deserializeTransaction sample_core
      ((serializeTransaction sample_core sample_transaction True)\<lparr>debit := '''', credit := ''1x''\<rparr>)
      sample_transaction) = amount sample_transaction"
proof -
  let ?d = "serializeTransaction sample_core sample_transaction True"
  have a: "evalArithmetic sample_core '''' = None" by code_simp
  have b: "evalArithmetic sample_core ''1x'' = None" by code_simp
  from deserialize_degrades [of sample_core "?d\<lparr>debit := '''', credit := ''''\<rparr>" sample_transaction] a
  have c: "amount (deserializeTransaction sample_core (?d\<lparr>debit := '''', credit := ''''\<rparr>)
             sample_transaction) = amount sample_transaction" by simp
  from deserialize_degrades [of sample_core "?d\<lparr>debit := ''1x'', credit := ''''\<rparr>" sample_transaction] a b
  have d: "amount (deserializeTransaction sample_core (?d\<lparr>debit := ''1x'', credit := ''''\<rparr>)
             sample_transaction) = amount sample_transaction" by simp
  from deserialize_degrades [of sample_core "?d\<lparr>debit := '''', credit := ''1x''\<rparr>" sample_transaction] a b
  have e: "amount (deserializeTransaction sample_core (?d\<lparr>debit := '''', credit := ''1x''\<rparr>)
             sample_transaction) = amount sample_transaction" by simp
  from a b c d e show ?thesis by blast
qed

text \<open>
  Claim C10: the date of a deserialized transaction is never null. A non-null display date is
  kept; a null display date is replaced by the original transaction's date, or by the current
  day when the original date is null or empty.
\<close>

theorem deserialize_date_not_null:
  "date (deserializeTransaction lc d orig) \<noteq> None \<and>
   (date d \<noteq> None \<longrightarrow> date (deserializeTransaction lc d orig) = date d) \<and>
   (date d = None \<longrightarrow> truthy (date orig) \<longrightarrow>
      date (deserializeTransaction lc d orig) = date orig) \<and>
   (date d = None \<longrightarrow> \<not> truthy (date orig) \<longrightarrow>
      date (deserializeTransaction lc d orig) = Some (currentDay lc))"
  by (auto simp: deserializeTransaction_def truthy_def split: option.splits)

text \<open>Claim C10 with an original date, without one, and with a display date.\<close>

theorem deserialize_date_not_null_witness:
  "date (deserializeTransaction sample_core
      ((serializeTransaction sample_core sample_transaction True)\<lparr>date := None\<rparr>)
      sample_transaction) = Some ''2023-03-05'' \<and>
   date (deserializeTransaction sample_core
      ((serializeTransaction sample_core sample_transaction True)\<lparr>date := None\<rparr>)
      (sample_transaction\<lparr>date := None\<rparr>)) = Some ''2023-04-01'' \<and>
   date (deserializeTransaction sample_core
      ((serializeTransaction sample_core sample_transaction True)\<lparr>date := Some ''2023-03-09''\<rparr>)
      sample_transaction) = Some ''2023-03-09''"
proof -
  let ?d = "serializeTransaction sample_core sample_transaction True"
  have a: "date (?d\<lparr>date := None\<rparr>) = None" by simp
  have b: "truthy (date sample_transaction)" by code_simp
  have b': "date sample_transaction = Some ''2023-03-05''" by (simp add: sample_transaction_def)
  have c: "\<not> truthy (date (sample_transaction\<lparr>date := None\<rparr>))" by (simp add: truthy_def)
  have e: "date (?d\<lparr>date := Some ''2023-03-09''\<rparr>) \<noteq> None" by simp
  have f: "currentDay sample_core = ''2023-04-01''" by (simp add: sample_core_def)
  from deserialize_date_not_null [of sample_core "?d\<lparr>date := None\<rparr>" sample_transaction] a b b'
  have g: "date (deserializeTransaction sample_core (?d\<lparr>date := None\<rparr>) sample_transaction)
           = Some ''2023-03-05''" by simp
  from deserialize_date_not_null [of sample_core "?d\<lparr>date := None\<rparr>"
         "sample_transaction\<lparr>date := None\<rparr>"] a c f
  have h: "date (deserializeTransaction sample_core (?d\<lparr>date := None\<rparr>)
             (sample_transaction\<lparr>date := None\<rparr>)) = Some ''2023-04-01''" by simp
  from deserialize_date_not_null [of sample_core "?d\<lparr>date := Some ''2023-03-09''\<rparr>"
         sample_transaction] e
  have i: "date (deserializeTransaction sample_core (?d\<lparr>date := Some ''2023-03-09''\<rparr>)
             sample_transaction) = Some ''2023-03-09''" by simp
  from g h i show ?thesis by blast
qed

section \<open>Split-expansion state machine: properties\<close>

text \<open>
  Claim C3: in every state whose \<open>transitionId\<close> is non-null the switch-mode action leaves
  the state unchanged; hence after two switch-mode actions from an idle state, with no
  finish in between, \<open>transitionId\<close> is the anchor id of the first one.
\<close>

theorem switch_mode_exclusive:
  "(transitionId s \<noteq> None \<longrightarrow> reducer s (Switch_mode j) = Inr s) \<and>
   (transitionId s = None \<longrightarrow>
      (\<exists>s1. reducer s (Switch_mode (Some a)) = Inr s1 \<and>
            dispatch (reducer s (Switch_mode (Some a))) (Switch_mode j) = Inr s1 \<and>
            transitionId s1 = Some a))"
  by (simp add: dispatch_def)

text \<open>Claim C3 on a state in transition and on an idle state.\<close>

theorem switch_mode_exclusive_witness:
  "transitionId \<lparr>mode = ''expand'', ids = {''p1''}, transitionId = Some ''p2''\<rparr> \<noteq> None \<and>
   reducer \<lparr>mode = ''expand'', ids = {''p1''}, transitionId = Some ''p2''\<rparr>
       (Switch_mode (Some ''p9''))
     = Inr \<lparr>mode = ''expand'', ids = {''p1''}, transitionId = Some ''p2''\<rparr> \<and>
   transitionId \<lparr>mode = ''expand'', ids = {''p1''}, transitionId = None\<rparr> = None \<and>
   (\<exists>s1. reducer \<lparr>mode = ''expand'', ids = {''p1''}, transitionId = None\<rparr>
            (Switch_mode (Some ''p2'')) = Inr s1 \<and>
         dispatch (reducer \<lparr>mode = ''expand'', ids = {''p1''}, transitionId = None\<rparr>
                     (Switch_mode (Some ''p2''))) (Switch_mode (Some ''p9'')) = Inr s1 \<and>
         transitionId s1 = Some ''p2'')"
proof -
  let ?busy = "\<lparr>mode = ''expand'', ids = {''p1''}, transitionId = Some ''p2''\<rparr>"
  let ?idle = "\<lparr>mode = ''expand'', ids = {''p1''}, transitionId = None\<rparr>"
  have a: "transitionId ?busy \<noteq> None" by simp
  have b: "transitionId ?idle = None" by simp
  from switch_mode_exclusive [of ?busy "Some ''p9''" "''p2''"] a
  have c: "reducer ?busy (Switch_mode (Some ''p9'')) = Inr ?busy" by blast
  from switch_mode_exclusive [of ?idle "Some ''p9''" "''p2''"] b
  have d: "\<exists>s1. reducer ?idle (Switch_mode (Some ''p2'')) = Inr s1 \<and>
         dispatch (reducer ?idle (Switch_mode (Some ''p2''))) (Switch_mode (Some ''p9'')) = Inr s1 \<and>
         transitionId s1 = Some ''p2''" by blast
  from a b c d show ?thesis by blast
qed

text \<open>
  Claim C4: toggling the same id twice gives back the original state, so the effective
  expansion of the id and its membership in the override set are the original ones.
\<close>

theorem toggle_twice:
  "dispatch (reducer s (Toggle_split i)) (Toggle_split i) = Inr s \<and>
   expanded (projr (dispatch (reducer s (Toggle_split i)) (Toggle_split i))) i = expanded s i \<and>
   (i \<in> ids (projr (dispatch (reducer s (Toggle_split i)) (Toggle_split i)))) = (i \<in> ids s)"
proof -
  have "dispatch (reducer s (Toggle_split i)) (Toggle_split i) = Inr s"
    by (auto simp: dispatch_def insert_absorb)
  then show ?thesis by simp
qed

text \<open>Claim C4 on a state with one override.\<close>

theorem toggle_twice_witness:
  "dispatch (reducer \<lparr>mode = ''collapse'', ids = {''p1''}, transitionId = None\<rparr>
               (Toggle_split ''p2'')) (Toggle_split ''p2'')
     = Inr \<lparr>mode = ''collapse'', ids = {''p1''}, transitionId = None\<rparr> \<and>
   reducer \<lparr>mode = ''collapse'', ids = {''p1''}, transitionId = None\<rparr> (Toggle_split ''p2'')
     = Inr \<lparr>mode = ''collapse'', ids = {''p2'', ''p1''}, transitionId = None\<rparr>"
  using toggle_twice [of "\<lparr>mode = ''collapse'', ids = {''p1''}, transitionId = None\<rparr>" "''p2''"]
  by simp

text \<open>
  Claim C5: the open-split action is idempotent, and after it the id is effectively
  expanded, in collapse mode and in any other mode.
\<close>

theorem open_split_idempotent_expanded:
  "dispatch (reducer s (Open_split i)) (Open_split i) = reducer s (Open_split i) \<and>
   (\<exists>s'. reducer s (Open_split i) = Inr s' \<and> expanded s' i)"
  by (auto simp: dispatch_def expanded_def)

text \<open>Claim C5 in collapse mode on an id that was overridden.\<close>

theorem open_split_idempotent_expanded_witness:
  "dispatch (reducer \<lparr>mode = ''collapse'', ids = {''p1''}, transitionId = None\<rparr>
               (Open_split ''p1'')) (Open_split ''p1'')
     = reducer \<lparr>mode = ''collapse'', ids = {''p1''}, transitionId = None\<rparr> (Open_split ''p1'') \<and>
   reducer \<lparr>mode = ''collapse'', ids = {''p1''}, transitionId = None\<rparr> (Open_split ''p1'')
     = Inr \<lparr>mode = ''collapse'', ids = {}, transitionId = None\<rparr> \<and>
   expanded \<lparr>mode = ''collapse'', ids = {}, transitionId = None\<rparr> ''p1''"
  using open_split_idempotent_expanded
          [of "\<lparr>mode = ''collapse'', ids = {''p1''}, transitionId = None\<rparr>" "''p1''"]
  by auto

section \<open>Visible rows: properties\<close>

lemma findIndex_lower: "- 1 \<le> findIndex P xs"
  by (induction xs) (auto simp: Let_def)

lemma findIndex_found:
  "0 \<le> findIndex P xs \<Longrightarrow> nat (findIndex P xs) < length xs \<and> P (xs ! nat (findIndex P xs))"
proof (induction xs)
  case Nil
  then show ?case by simp
next
  case (Cons x xs)
  show ?case
  proof (cases "P x")
    case True
    then show ?thesis by simp
  next
    case False
    with Cons.prems have nn: "0 \<le> findIndex P xs"
      by (simp add: Let_def split: if_splits)
    with False have "findIndex P (x # xs) = findIndex P xs + 1"
      by (simp add: Let_def)
    moreover from nn have "nat (findIndex P xs + 1) = Suc (nat (findIndex P xs))"
      by simp
    ultimately show ?thesis using Cons.IH [OF nn] by simp
  qed
qed

lemma filter_idx_pointwise:
  assumes "\<And>i. i < length xs \<Longrightarrow> P (xs ! i) i = Q (xs ! i)"
  shows "filter_idx P xs = filter Q xs"
proof -
  have "filter (\<lambda>(idx, t). P t idx) (enumerate 0 xs) = filter (Q \<circ> snd) (enumerate 0 xs)"
    by (rule filter_cong) (auto simp: in_set_enumerate_eq assms)
  then have "filter_idx P xs = map snd (filter (Q \<circ> snd) (enumerate 0 xs))"
    by (simp add: filter_idx_def)
  also have "\<dots> = filter Q (map snd (enumerate 0 xs))"
    by (rule filter_map [symmetric])
  finally show ?thesis by (simp add: map_snd_enumerate)
qed

lemma filter_idx_keeps:
  assumes "\<And>t i. R t \<Longrightarrow> P t i"
  shows "filter R (filter_idx P xs) = filter R xs"
proof -
  have "filter R (map snd (filter Q ps)) = filter R (map snd ps)"
    if "\<forall>p \<in> set ps. R (snd p) \<longrightarrow> Q p" for Q and ps :: "(nat \<times> 'a) list"
    using that by (induction ps) auto
  note gen = this
  have "\<forall>p \<in> set (enumerate 0 xs). R (snd p) \<longrightarrow> (case p of (idx, t) \<Rightarrow> P t idx)"
    using assms by auto
  from gen [OF this] show ?thesis
    by (simp add: filter_idx_def)
qed

lemma family_orderD:
  "family_order txs \<Longrightarrow> i < length txs \<Longrightarrow> truthy (parent_id (txs ! i)) \<Longrightarrow> follows_parent txs i"
  by (auto simp: family_order_def list_all_iff in_set_enumerate_eq)

text \<open>
  A child row that follows its parent stands at or after the anchor row exactly when its
  parent does, as long as the anchor row is not itself a child row.
\<close>

lemma anchor_index_child_parent:
  assumes i: "i < length txs"
    and fp: "follows_parent txs i"
    and anchor: "anchor_is_parent txs tr"
  shows "(findIndex (\<lambda>u. txid u = tr) txs \<le> int i) =
         (findIndex (\<lambda>u. txid u = tr) txs \<le> parent_index txs (txs ! i))"
proof -
  define k where "k = findIndex (\<lambda>u. txid u = tr) txs"
  define p where "p = parent_index txs (txs ! i)"
  from fp have p0: "0 \<le> p" and pi: "p < int i"
    and seg: "list_all (\<lambda>u. truthy (parent_id u)) (take (i - nat p) (drop (nat p + 1) txs))"
    by (simp_all add: follows_parent_def Let_def p_def)
  have "k \<le> p" if ki: "k \<le> int i"
  proof (rule ccontr)
    assume "\<not> k \<le> p"
    then have pk: "p < k" by simp
    with p0 have k0: "0 \<le> k" by simp
    from findIndex_found [of "\<lambda>u. txid u = tr" txs] k0
    have klen: "nat k < length txs" and kid: "txid (txs ! nat k) = tr"
      by (simp_all add: k_def)
    define j where "j = nat k - (nat p + 1)"
    from pk p0 ki have j: "j < i - nat p" and kj: "nat k = nat p + 1 + j"
      by (simp_all add: j_def)
    from j i have "j < length (take (i - nat p) (drop (nat p + 1) txs))"
      using kj klen by simp
    with seg have "truthy (parent_id (take (i - nat p) (drop (nat p + 1) txs) ! j))"
      by (simp add: list_all_length)
    with j kj klen have "truthy (parent_id (txs ! nat k))"
      by simp
    moreover from anchor klen kid have "\<not> truthy (parent_id (txs ! nat k))"
      by (auto simp: anchor_is_parent_def list_all_iff)
    ultimately show False by simp
  qed
  moreover have "k \<le> int i" if "k \<le> p"
    using that pi by simp
  ultimately show ?thesis
    unfolding k_def p_def by blast
qed

text \<open>
  When the rows are in family order and the anchor row is a parent row, the filter agrees
  with the reading by the parent's index.
\<close>

lemma memo_transition:
  assumes tr: "transitionId cur = Some tr"
    and fo: "family_order txs"
    and anchor: "anchor_is_parent txs tr"
  shows "fst (transactions_memo txs cur (Some prev)) = filter (visible_by_parent txs cur prev) txs"
proof -
  have key: "filter_idx
          (\<lambda>t idx.
             if truthy (parent_id t) then
               (if int idx \<ge> findIndex (\<lambda>t. txid t = tr) txs
                then expanded cur (the (parent_id t))
                else expanded prev (the (parent_id t)))
             else True) txs
        = filter (visible_by_parent txs cur prev) txs"
  proof (rule filter_idx_pointwise)
    fix i assume i: "i < length txs"
    show "(if truthy (parent_id (txs ! i)) then
             (if int i \<ge> findIndex (\<lambda>t. txid t = tr) txs
              then expanded cur (the (parent_id (txs ! i)))
              else expanded prev (the (parent_id (txs ! i))))
           else True) = visible_by_parent txs cur prev (txs ! i)"
    proof (cases "truthy (parent_id (txs ! i))")
      case False
      then show ?thesis by (simp add: visible_by_parent_def)
    next
      case True
      from family_orderD [OF fo i True] have "follows_parent txs i" .
      from anchor_index_child_parent [OF i this anchor] True tr
      show ?thesis by (simp add: visible_by_parent_def)
    qed
  qed
  have memo: "fst (transactions_memo txs cur (Some prev)) =
      filter_idx
          (\<lambda>t idx.
             if truthy (parent_id t) then
               (if int idx \<ge> findIndex (\<lambda>t. txid t = tr) txs
                then expanded cur (the (parent_id t))
                else expanded prev (the (parent_id t)))
             else True) txs"
    using tr by (simp add: transactions_memo_def)
  show ?thesis by (simp only: memo key)
qed

lemma memo_keeps_non_children:
  "filter (\<lambda>t. \<not> truthy (parent_id t)) (fst (transactions_memo txs cur ref)) =
   filter (\<lambda>t. \<not> truthy (parent_id t)) txs"
proof (cases "transitionId cur")
  case None
  then show ?thesis
    by (simp add: transactions_memo_def)
next
  case (Some tr)
  then have eq: "fst (transactions_memo txs cur ref) =
     filter_idx
       (\<lambda>t idx.
          if truthy (parent_id t) then
            (if int idx \<ge> findIndex (\<lambda>t. txid t = tr) txs
             then expanded cur (the (parent_id t))
             else (case ref of Some prev \<Rightarrow> expanded prev (the (parent_id t)) | None \<Rightarrow> True))
          else True) txs"
    by (simp add: transactions_memo_def)
  show ?thesis
    unfolding eq by (rule filter_idx_keeps) simp
qed








section \<open>Draft buffer: properties\<close>

text \<open>
  Claim C7: deleting the id of the first element of a draft buffer leaves the buffer
  unchanged.
\<close>

theorem delete_anchor_noop:
  "onDelete deleteTransaction (Some (t0 # ts)) (txid t0) = Inr (Some (t0 # ts))"
  by (simp add: onDelete_def)

text \<open>Claim C7 on a draft parent with one draft child.\<close>

theorem delete_anchor_noop_witness:
  "onDelete (\<lambda>ts i. filter (\<lambda>t. txid t \<noteq> i) ts)
     (Some [sample_row ''temp'' None, sample_row ''temp2'' (Some ''temp'')]) ''temp''
   = Inr (Some [sample_row ''temp'' None, sample_row ''temp2'' (Some ''temp'')])"
proof -
  have "txid (sample_row ''temp'' None) = ''temp''" by (simp add: sample_row_def)
  with delete_anchor_noop [of "\<lambda>ts i. filter (\<lambda>t. txid t \<noteq> i) ts" "sample_row ''temp'' None"
         "[sample_row ''temp2'' (Some ''temp'')]"]
  show ?thesis by simp
qed

section \<open>Editable fields: properties\<close>

lemma getFields_kind:
  "getFields sa sc item =
     (if isTemporaryId (txid item) then tl (kind_fields sa sc item) else kind_fields sa sc item)"
  by (simp add: getFields_def kind_fields_def drop_Suc)

lemma kind_fields_select: "\<exists>fs. kind_fields sa sc item = ''select'' # fs"
  by (simp add: kind_fields_def)

text \<open>
  Claim C9: the field list of a split-child row is select, payee, notes, category, debit,
  credit; of a preview row it is select, cleared; a row that is not a draft has the list of
  its kind, and a draft row has the list of its kind without the leading select.
\<close>

theorem field_sets_by_kind:
  "(is_child item \<and> \<not> isPreviewId (txid item) \<and> \<not> isTemporaryId (txid item) \<longrightarrow>
      getFields sa sc item = [''select'', ''payee'', ''notes'', ''category'', ''debit'', ''credit'']) \<and>
   (isPreviewId (txid item) \<and> \<not> isTemporaryId (txid item) \<longrightarrow>
      getFields sa sc item = [''select'', ''cleared'']) \<and>
   (\<not> isTemporaryId (txid item) \<longrightarrow> getFields sa sc item = kind_fields sa sc item) \<and>
   (isTemporaryId (txid item) \<longrightarrow> ''select'' # getFields sa sc item = kind_fields sa sc item)"
proof -
  obtain fs where fs: "kind_fields sa sc item = ''select'' # fs"
    using kind_fields_select by blast
  have child: "is_child item \<and> \<not> isPreviewId (txid item) \<Longrightarrow>
      kind_fields sa sc item = [''select'', ''payee'', ''notes'', ''category'', ''debit'', ''credit'']"
    by (simp add: kind_fields_def)
  have preview: "isPreviewId (txid item) \<Longrightarrow> kind_fields sa sc item = [''select'', ''cleared'']"
    by (simp add: kind_fields_def)
  have temp: "isTemporaryId (txid item) \<Longrightarrow> ''select'' # getFields sa sc item = kind_fields sa sc item"
    by (simp add: getFields_kind fs)
  have other: "\<not> isTemporaryId (txid item) \<Longrightarrow> getFields sa sc item = kind_fields sa sc item"
    by (simp add: getFields_kind)
  from child preview temp other show ?thesis
    by metis
qed

text \<open>Claim C9 on a child row, a preview row, a plain row and a draft row.\<close>

theorem field_sets_by_kind_witness:
  "getFields True True (sample_row ''c1'' (Some ''p1''))
     = [''select'', ''payee'', ''notes'', ''category'', ''debit'', ''credit''] \<and>
   getFields True True sample_preview = [''select'', ''cleared''] \<and>
   getFields True False (sample_row ''n3'' None)
     = [''select'', ''date'', ''account'', ''payee'', ''notes'', ''debit'', ''credit'', ''cleared''] \<and>
   getFields True False (sample_row ''temp'' None)
     = [''date'', ''account'', ''payee'', ''notes'', ''debit'', ''credit'', ''cleared'']"
proof -
  have a: "is_child (sample_row ''c1'' (Some ''p1'')) \<and>
           \<not> isPreviewId (txid (sample_row ''c1'' (Some ''p1''))) \<and>
           \<not> isTemporaryId (txid (sample_row ''c1'' (Some ''p1'')))" by code_simp
  have b: "isPreviewId (txid sample_preview) \<and> \<not> isTemporaryId (txid sample_preview)"
    by code_simp
  have c: "\<not> isTemporaryId (txid (sample_row ''n3'' None))" by code_simp
  have d: "isTemporaryId (txid (sample_row ''temp'' None))" by code_simp
  have e: "kind_fields True False (sample_row ''n3'' None)
     = [''select'', ''date'', ''account'', ''payee'', ''notes'', ''debit'', ''credit'', ''cleared'']"
    by code_simp
  have f: "kind_fields True False (sample_row ''temp'' None)
     = [''select'', ''date'', ''account'', ''payee'', ''notes'', ''debit'', ''credit'', ''cleared'']"
    by code_simp
  from field_sets_by_kind [of "sample_row ''c1'' (Some ''p1'')" True True] a
  have g: "getFields True True (sample_row ''c1'' (Some ''p1''))
     = [''select'', ''payee'', ''notes'', ''category'', ''debit'', ''credit'']" by blast
  from field_sets_by_kind [of sample_preview True True] b
  have h: "getFields True True sample_preview = [''select'', ''cleared'']" by blast
  from field_sets_by_kind [of "sample_row ''n3'' None" True False] c e
  have i: "getFields True False (sample_row ''n3'' None)
     = [''select'', ''date'', ''account'', ''payee'', ''notes'', ''debit'', ''credit'', ''cleared'']"
    by simp
  from field_sets_by_kind [of "sample_row ''temp'' None" True False] d f
  have j: "getFields True False (sample_row ''temp'' None)
     = [''date'', ''account'', ''payee'', ''notes'', ''debit'', ''credit'', ''cleared'']"
    by simp
  from g h i j show ?thesis by blast
qed

end
